theory Spec2Isabelle
  imports Complex_Main
begin

section \<open>Python values as the monitors see them\<close>

text \<open>
  Both monitors (\<^verbatim>\<open>main.py\<close>, the multi-wallet variant, and
  \<^verbatim>\<open>get_specific_activity.py\<close>, the single-wallet variant) work on what
  \<^verbatim>\<open>response.json()\<close> returns: \<^verbatim>\<open>None\<close>, booleans, unbounded integers, floats,
  strings, lists and dictionaries. A Python float is a finite rational, an infinity or
  a NaN; the code only compares floats with integers (which Python does exactly) and
  truncates them with \<^verbatim>\<open>int()\<close>, so no floating-point arithmetic is modelled. A
  dictionary is an association list read with \<open>map_of\<close>.
\<close>

datatype pyfloat = Fin rat | PInf | NInf | NaN

datatype json =
    JNull
  | JBool bool
  | JInt int
  | JFloat pyfloat
  | JStr string
  | JArr "json list"
  | JObj "(string \<times> json) list"

type_synonym dict = "(string \<times> json) list"

datatype exn =
    ValueError
  | TypeError
  | OverflowError
  | OSError
  | AttributeError
  | UnboundLocalError
  | RequestException

text \<open>
  Functions of the Python library whose code is not part of the repository are
  parameters of the model: \<^verbatim>\<open>int(s)\<close> on a string (\<open>None\<close> is \<^verbatim>\<open>ValueError\<close>), the
  exception \<^verbatim>\<open>float(x)\<close> raises (if any), the exception
  \<^verbatim>\<open>datetime.fromtimestamp(n)\<close> raises (if any), and the membership test
  \<^verbatim>\<open>x in xs\<close> on a list.
\<close>

record pylib =
  int_of_str :: "string \<Rightarrow> int option"
  float_exn :: "json \<Rightarrow> exn option"
  fromtimestamp_exn :: "int \<Rightarrow> exn option"
  py_in :: "json \<Rightarrow> json list \<Rightarrow> bool"

text \<open>Truth value of an object, as \<^verbatim>\<open>if x:\<close> tests it.\<close>

fun truthy :: "json \<Rightarrow> bool" where
  "truthy JNull = False"
| "truthy (JBool b) = b"
| "truthy (JInt n) = (n \<noteq> 0)"
| "truthy (JFloat f) = (f \<noteq> Fin 0)"
| "truthy (JStr s) = (s \<noteq> [])"
| "truthy (JArr xs) = (xs \<noteq> [])"
| "truthy (JObj kvs) = (kvs \<noteq> [])"

text \<open>\<^verbatim>\<open>isinstance(x, str)\<close>.\<close>

fun is_str :: "json \<Rightarrow> bool" where
  "is_str (JStr s) = True"
| "is_str _ = False"

text \<open>\<^verbatim>\<open>int(x)\<close> on a float truncates towards zero.\<close>

definition trunc :: "rat \<Rightarrow> int" where
  "trunc q = (if 0 \<le> q then \<lfloor>q\<rfloor> else \<lceil>q\<rceil>)"

text \<open>\<^verbatim>\<open>int(x)\<close>.\<close>

fun py_int :: "pylib \<Rightarrow> json \<Rightarrow> exn + int" where
  "py_int L JNull = Inl TypeError"
| "py_int L (JBool b) = Inr (if b then 1 else 0)"
| "py_int L (JInt n) = Inr n"
| "py_int L (JFloat (Fin q)) = Inr (trunc q)"
| "py_int L (JFloat PInf) = Inl OverflowError"
| "py_int L (JFloat NInf) = Inl OverflowError"
| "py_int L (JFloat NaN) = Inl ValueError"
| "py_int L (JStr s) = (case int_of_str L s of None \<Rightarrow> Inl ValueError | Some n \<Rightarrow> Inr n)"
| "py_int L (JArr xs) = Inl TypeError"
| "py_int L (JObj kvs) = Inl TypeError"

text \<open>\<^verbatim>\<open>x > w\<close> for an integer \<open>w\<close>: an order exists between numbers only.\<close>

fun py_gt :: "json \<Rightarrow> int \<Rightarrow> exn + bool" where
  "py_gt (JBool b) w = Inr (w < (if b then 1 else 0))"
| "py_gt (JInt n) w = Inr (w < n)"
| "py_gt (JFloat (Fin q)) w = Inr (of_int w < q)"
| "py_gt (JFloat PInf) w = Inr True"
| "py_gt (JFloat NInf) w = Inr False"
| "py_gt (JFloat NaN) w = Inr False"
| "py_gt JNull w = Inl TypeError"
| "py_gt (JStr s) w = Inl TypeError"
| "py_gt (JArr xs) w = Inl TypeError"
| "py_gt (JObj kvs) w = Inl TypeError"

text \<open>\<^verbatim>\<open>x != w\<close> for an integer \<open>w\<close>: defined on every object, never raises.\<close>

fun py_ne :: "json \<Rightarrow> int \<Rightarrow> bool" where
  "py_ne (JBool b) w = ((if b then 1 else 0) \<noteq> w)"
| "py_ne (JInt n) w = (n \<noteq> w)"
| "py_ne (JFloat (Fin q)) w = (q \<noteq> of_int w)"
| "py_ne (JFloat PInf) w = True"
| "py_ne (JFloat NInf) w = True"
| "py_ne (JFloat NaN) w = True"
| "py_ne JNull w = True"
| "py_ne (JStr s) w = True"
| "py_ne (JArr xs) w = True"
| "py_ne (JObj kvs) w = True"

text \<open>
  \<^verbatim>\<open>for x in v\<close>: a list yields its elements, a dictionary its keys, a string its
  characters; the other objects are not iterable.
\<close>

fun py_iter :: "json \<Rightarrow> exn + json list" where
  "py_iter (JArr xs) = Inr xs"
| "py_iter (JObj kvs) = Inr (map (\<lambda>kv. JStr (fst kv)) kvs)"
| "py_iter (JStr s) = Inr (map (\<lambda>c. JStr [c]) s)"
| "py_iter JNull = Inl TypeError"
| "py_iter (JBool b) = Inl TypeError"
| "py_iter (JInt n) = Inl TypeError"
| "py_iter (JFloat f) = Inl TypeError"

text \<open>
  \<^verbatim>\<open>x.get\<close> exists on dictionaries only: on any other object the attribute lookup
  raises \<^verbatim>\<open>AttributeError\<close>.
\<close>

fun as_dict :: "json \<Rightarrow> exn + dict" where
  "as_dict (JObj kvs) = Inr kvs"
| "as_dict _ = Inl AttributeError"

text \<open>\<^verbatim>\<open>d.get(k)\<close>, \<^verbatim>\<open>d.get(k, v)\<close> and \<^verbatim>\<open>k in d\<close> on a dictionary.\<close>

definition dict_get :: "dict \<Rightarrow> string \<Rightarrow> json" where
  "dict_get d k = (case map_of d k of None \<Rightarrow> JNull | Some v \<Rightarrow> v)"

definition dict_get_default :: "dict \<Rightarrow> string \<Rightarrow> json \<Rightarrow> json" where
  "dict_get_default d k v0 = (case map_of d k of None \<Rightarrow> v0 | Some v \<Rightarrow> v)"

definition has_key :: "dict \<Rightarrow> string \<Rightarrow> bool" where
  "has_key d k = (map_of d k \<noteq> None)"

section \<open>HTTP\<close>

text \<open>
  A request is its URL and parameters. The network is a parameter: it answers a
  request either with a transport failure (\<^verbatim>\<open>requests.get\<close> raises a
  \<^verbatim>\<open>RequestException\<close>) or with a response, which has a status code and a body that is
  JSON or not.
\<close>

record request =
  url :: string
  params :: "(string \<times> json) list"

datatype http_reply = ConnectionFailed | Reply nat "json option"

type_synonym http = "request \<Rightarrow> http_reply"

text \<open>\<^verbatim>\<open>response.raise_for_status()\<close> raises \<^verbatim>\<open>HTTPError\<close> on a 4xx or 5xx status.\<close>

definition raise_for_status :: "nat \<Rightarrow> bool" where
  "raise_for_status st = (400 \<le> st \<and> st < 600)"

text \<open>
  The three lines \<^verbatim>\<open>response = requests.get(...)\<close>,
  \<^verbatim>\<open>response.raise_for_status()\<close>, \<^verbatim>\<open>response.json()\<close>. All three raise subclasses
  of \<^verbatim>\<open>RequestException\<close>: \<^verbatim>\<open>ConnectionError\<close> and its kin, \<^verbatim>\<open>HTTPError\<close>, and
  (requests 2.27 and later) \<^verbatim>\<open>requests.exceptions.JSONDecodeError\<close>.
\<close>

definition get_json :: "http \<Rightarrow> request \<Rightarrow> exn + json" where
  "get_json H req =
     (case H req of
        ConnectionFailed \<Rightarrow> Inl RequestException
      | Reply st body \<Rightarrow>
          if raise_for_status st then Inl RequestException
          else (case body of None \<Rightarrow> Inl RequestException | Some j \<Rightarrow> Inr j))"

section \<open>Market catalogue: \<^verbatim>\<open>get_markets_by_tags\<close>\<close>

text \<open>
  The function has the same text in both files. The model returns the requests it
  issued, in order, beside its result. \<^verbatim>\<open>time.sleep(0.1)\<close> and the console output
  are left out.
\<close>

definition markets_request :: "json \<Rightarrow> int \<Rightarrow> request" where
  "markets_request tag_id limit =
     \<lparr>url = ''https://gamma-api.polymarket.com/markets'',
      params = [(''tag_id'', tag_id), (''closed'', JStr ''false''), (''limit'', JInt limit)]\<rparr>"

text \<open>The inner loop \<^verbatim>\<open>for market in markets: all_markets.append({...})\<close>.\<close>

fun append_markets :: "json \<Rightarrow> json list \<Rightarrow> dict list \<Rightarrow> exn + dict list" where
  "append_markets tag_id [] all_markets = Inr all_markets"
| "append_markets tag_id (market # ms) all_markets =
     (case as_dict market of
        Inl e \<Rightarrow> Inl e
      | Inr m \<Rightarrow>
          append_markets tag_id ms
            (all_markets @
               [[(''question'', dict_get m ''question''),
                 (''condition_id'', dict_get m ''conditionId''),
                 (''tag_id'', tag_id)]]))"

text \<open>
  The body of the \<^verbatim>\<open>try\<close> for one tag. A \<^verbatim>\<open>RequestException\<close> can only come from
  the first three lines, before anything is appended, so the handler continues with
  \<open>all_markets\<close> as it was.
\<close>

definition fetch_tag :: "http \<Rightarrow> int \<Rightarrow> json \<Rightarrow> dict list \<Rightarrow> exn + dict list" where
  "fetch_tag H limit tag_id all_markets =
     (case get_json H (markets_request tag_id limit) of
        Inl e \<Rightarrow> Inl e
      | Inr markets \<Rightarrow>
          (case py_iter markets of
             Inl e \<Rightarrow> Inl e
           | Inr ms \<Rightarrow> append_markets tag_id ms all_markets))"



section \<open>Activity fetcher: \<^verbatim>\<open>get_user_activity\<close>\<close>

text \<open>\<^verbatim>\<open>main.py\<close>: the latest record only, and no client-side filter.\<close>

definition activity_request_main :: "string \<Rightarrow> request" where
  "activity_request_main wallet_address =
     \<lparr>url = ''https://data-api.polymarket.com/activity'',
      params = [(''user'', JStr wallet_address), (''limit'', JInt 1),
                (''sortBy'', JStr ''TIMESTAMP''), (''sortDirection'', JStr ''DESC'')]\<rparr>"

definition get_user_activity_main :: "http \<Rightarrow> string \<Rightarrow> request list \<times> json" where
  "get_user_activity_main H wallet_address =
     ([activity_request_main wallet_address],
      (case get_json H (activity_request_main wallet_address) of
         Inl e \<Rightarrow> JArr []
       | Inr activities \<Rightarrow> activities))"

text \<open>
  \<^verbatim>\<open>get_specific_activity.py\<close>: the whole feed, filtered by condition id on the client.
  The list comprehension calls \<^verbatim>\<open>activity.get\<close> inside the \<^verbatim>\<open>try\<close>; what it
  raises is no \<^verbatim>\<open>RequestException\<close> and leaves the function.
\<close>

definition activity_request_specific :: "string \<Rightarrow> request" where
  "activity_request_specific wallet_address =
     \<lparr>url = ''https://data-api.polymarket.com/activity'',
      params = [(''user'', JStr wallet_address)]\<rparr>"

fun filter_condition :: "pylib \<Rightarrow> json list \<Rightarrow> json list \<Rightarrow> exn + json list" where
  "filter_condition L ids [] = Inr []"
| "filter_condition L ids (activity # rest) =
     (case as_dict activity of
        Inl e \<Rightarrow> Inl e
      | Inr d \<Rightarrow>
          (case filter_condition L ids rest of
             Inl e \<Rightarrow> Inl e
           | Inr kept \<Rightarrow>
               Inr (if py_in L (dict_get d ''conditionId'') ids then activity # kept else kept)))"

definition get_user_activity_specific ::
  "pylib \<Rightarrow> http \<Rightarrow> string \<Rightarrow> json list option \<Rightarrow> request list \<times> (exn + json)"
where
  "get_user_activity_specific L H wallet_address market_condition_ids =
     ([activity_request_specific wallet_address],
      (case get_json H (activity_request_specific wallet_address) of
         Inl e \<Rightarrow> Inr (JArr [])
       | Inr activities \<Rightarrow>
           (case market_condition_ids of
              None \<Rightarrow> Inr activities
            | Some ids \<Rightarrow>
                if ids \<noteq> [] then
                  (case py_iter activities of
                     Inl e \<Rightarrow> Inl e
                   | Inr items \<Rightarrow> map_sum id JArr (filter_condition L ids items))
                else Inr activities)))"

section \<open>Notifier: \<^verbatim>\<open>send_telegram_message\<close>\<close>

text \<open>
  The result of one \<^verbatim>\<open>requests.post\<close> followed by \<^verbatim>\<open>raise_for_status\<close>, given the
  network's answer to that POST: \<open>True\<close> when delivered, \<open>False\<close> when a
  \<^verbatim>\<open>RequestException\<close> was caught.
\<close>

fun send_telegram_message :: "http_reply \<Rightarrow> bool" where
  "send_telegram_message ConnectionFailed = False"
| "send_telegram_message (Reply st body) = (\<not> raise_for_status st)"

text \<open>\<^verbatim>\<open>if telegram_bot_token and telegram_chat_id\<close> on two optional strings.\<close>

definition opt_truthy :: "string option \<Rightarrow> bool" where
  "opt_truthy x = (case x of None \<Rightarrow> False | Some s \<Rightarrow> s \<noteq> [])"

definition telegram_enabled :: "string option \<Rightarrow> string option \<Rightarrow> bool" where
  "telegram_enabled telegram_bot_token telegram_chat_id =
     (opt_truthy telegram_bot_token \<and> opt_truthy telegram_chat_id)"

section \<open>One polling cycle\<close>

text \<open>
  What a cycle leaves behind: the state of the loop's variables, the records it
  classified as new, and the Telegram messages it tried to send, each with the records
  it reports and the result of \<open>send_telegram_message\<close>. The text of a message is a
  fixed rendering of those records and is not modelled further.
\<close>

record 's cycle_result =
  next_state :: 's
  new_activities :: "dict list"
  telegram_attempts :: "(dict list \<times> bool) list"

text \<open>\<^verbatim>\<open>except (ValueError, TypeError): continue\<close> around the newness test.\<close>

definition except_continue :: "exn + bool \<Rightarrow> exn + bool" where
  "except_continue r =
     (case r of
        Inl e \<Rightarrow> if e = ValueError \<or> e = TypeError then Inr False else Inl e
      | Inr b \<Rightarrow> Inr b)"

text \<open>\<^verbatim>\<open>if isinstance(activity_timestamp, str): activity_timestamp = int(activity_timestamp)\<close>.\<close>

definition convert_str :: "pylib \<Rightarrow> json \<Rightarrow> exn + json" where
  "convert_str L ts = (if is_str ts then map_sum id JInt (py_int L ts) else Inr ts)"

subsection \<open>\<^verbatim>\<open>main.py\<close>\<close>

text \<open>
  The loop keeps \<^verbatim>\<open>last_check_timestamp\<close>. Its \<^verbatim>\<open>else\<close> branches print
  \<^verbatim>\<open>activity_name\<close>, a local variable that is assigned only inside the loop over the
  new activities, so whether it is bound yet is part of the state. Line 264 of the file
  is indented with tabs among lines indented with spaces; it is read here at the
  indentation of its neighbours.
\<close>

record mstate =
  last_check_timestamp :: int
  activity_name_bound :: bool

text \<open>
  The body of the \<^verbatim>\<open>try\<close>, lines 213 to 219: the test is \<^verbatim>\<open>!=\<close>. The assignment
  \<^verbatim>\<open>activity_timestamp = last_check_timestamp\<close> that follows it writes a local that is
  not read again.
\<close>

definition newer_main :: "pylib \<Rightarrow> int \<Rightarrow> json \<Rightarrow> exn + bool" where
  "newer_main L lct ts =
     (case convert_str L ts of
        Inl e \<Rightarrow> Inl e
      | Inr t \<Rightarrow> Inr (py_ne t lct))"

fun classify_main :: "pylib \<Rightarrow> int \<Rightarrow> json list \<Rightarrow> exn + dict list" where
  "classify_main L lct [] = Inr []"
| "classify_main L lct (activity # rest) =
     (case as_dict activity of
        Inl e \<Rightarrow> Inl e
      | Inr d \<Rightarrow>
          (case (if truthy (dict_get d ''timestamp'')
                 then except_continue (newer_main L lct (dict_get d ''timestamp''))
                 else Inr False) of
             Inl e \<Rightarrow> Inl e
           | Inr is_new \<Rightarrow>
               (case classify_main L lct rest of
                  Inl e \<Rightarrow> Inl e
                | Inr new \<Rightarrow> Inr (if is_new then d # new else new))))"

text \<open>
  Lines 231 to 256 for one new activity: \<^verbatim>\<open>float\<close> of size and price, then, if the
  record has a timestamp, \<^verbatim>\<open>int\<close> of it, \<^verbatim>\<open>datetime.fromtimestamp\<close>, and the running
  maximum. None of this is inside a \<^verbatim>\<open>try\<close>.
\<close>

definition display_main :: "pylib \<Rightarrow> dict \<Rightarrow> int \<Rightarrow> exn + int" where
  "display_main L activity latest =
     (case float_exn L (dict_get_default activity ''size'' (JInt 0)) of
        Some e \<Rightarrow> Inl e
      | None \<Rightarrow>
     (case float_exn L (dict_get_default activity ''price'' (JInt 0)) of
        Some e \<Rightarrow> Inl e
      | None \<Rightarrow>
          if has_key activity ''timestamp'' then
            (case py_int L (dict_get activity ''timestamp'') of
               Inl e \<Rightarrow> Inl e
             | Inr activity_timestamp_int \<Rightarrow>
                 (case fromtimestamp_exn L activity_timestamp_int of
                    Some e \<Rightarrow> Inl e
                  | None \<Rightarrow>
                      Inr (if activity_timestamp_int > latest
                           then activity_timestamp_int else latest)))
          else Inr latest))"

text \<open>
  The loop over the new activities, lines 230 to 270. \<open>rep k\<close> is the network's
  answer to the \<open>k\<close>-th POST of the cycle; the result of \<open>send_telegram_message\<close>
  is not looked at by the caller.
\<close>

fun notify_main ::
  "pylib \<Rightarrow> bool \<Rightarrow> (nat \<Rightarrow> http_reply) \<Rightarrow> dict list \<Rightarrow> int \<Rightarrow> nat
     \<Rightarrow> exn + int \<times> (dict list \<times> bool) list"
where
  "notify_main L tg rep [] latest k = Inr (latest, [])"
| "notify_main L tg rep (activity # rest) latest k =
     (case display_main L activity latest of
        Inl e \<Rightarrow> Inl e
      | Inr latest' \<Rightarrow>
          if tg then
            (case notify_main L tg rep rest latest' (Suc k) of
               Inl e \<Rightarrow> Inl e
             | Inr (w, sent) \<Rightarrow> Inr (w, ([activity], send_telegram_message (rep k)) # sent))
          else notify_main L tg rep rest latest' k)"

definition monitor_cycle_main ::
  "pylib \<Rightarrow> string option \<Rightarrow> string option \<Rightarrow> (nat \<Rightarrow> http_reply) \<Rightarrow> mstate \<Rightarrow> json
     \<Rightarrow> exn + mstate cycle_result"
where
  "monitor_cycle_main L telegram_bot_token telegram_chat_id rep st activities =
     (if truthy activities then
        (case py_iter activities of
           Inl e \<Rightarrow> Inl e
         | Inr items \<Rightarrow>
        (case classify_main L (last_check_timestamp st) items of
           Inl e \<Rightarrow> Inl e
         | Inr new \<Rightarrow>
             if new \<noteq> [] then
               (case notify_main L (telegram_enabled telegram_bot_token telegram_chat_id)
                       rep new (last_check_timestamp st) 0 of
                  Inl e \<Rightarrow> Inl e
                | Inr (latest_activity_timestamp, sent) \<Rightarrow>
                    Inr \<lparr>next_state =
                           \<lparr>last_check_timestamp = latest_activity_timestamp,
                            activity_name_bound = True\<rparr>,
                         new_activities = new, telegram_attempts = sent\<rparr>)
             else if activity_name_bound st
               then Inr \<lparr>next_state = st, new_activities = [], telegram_attempts = []\<rparr>
               else Inl UnboundLocalError))
      else if activity_name_bound st
        then Inr \<lparr>next_state = st, new_activities = [], telegram_attempts = []\<rparr>
        else Inl UnboundLocalError)"

text \<open>Fetch and cycle: one pass through the body of \<^verbatim>\<open>while True\<close>.\<close>

definition monitor_poll_main ::
  "pylib \<Rightarrow> string option \<Rightarrow> string option \<Rightarrow> string \<Rightarrow> http \<Rightarrow> (nat \<Rightarrow> http_reply)
     \<Rightarrow> mstate \<Rightarrow> exn + mstate cycle_result"
where
  "monitor_poll_main L telegram_bot_token telegram_chat_id wallet_address H rep st =
     monitor_cycle_main L telegram_bot_token telegram_chat_id rep st
       (snd (get_user_activity_main H wallet_address))"

text \<open>
  \<^verbatim>\<open>monitor_user_trades\<close> never returns: it ends only with an exception. The model
  runs it over a finite list of polls, each with the state of the network at that
  time, and returns the state reached or the exception that ended the loop.
\<close>

fun loop_main ::
  "pylib \<Rightarrow> string option \<Rightarrow> string option \<Rightarrow> string \<Rightarrow> (http \<times> (nat \<Rightarrow> http_reply)) list
     \<Rightarrow> mstate \<Rightarrow> exn + mstate"
where
  "loop_main L tok chat wallet_address [] st = Inr st"
| "loop_main L tok chat wallet_address (env # envs) st =
     (case monitor_poll_main L tok chat wallet_address (fst env) (snd env) st of
        Inl e \<Rightarrow> Inl e
      | Inr out \<Rightarrow> loop_main L tok chat wallet_address envs (next_state out))"

definition monitor_user_trades_main ::
  "pylib \<Rightarrow> string option \<Rightarrow> string option \<Rightarrow> string \<Rightarrow> (http \<times> (nat \<Rightarrow> http_reply)) list
     \<Rightarrow> exn + mstate"
where
  "monitor_user_trades_main L tok chat wallet_address envs =
     loop_main L tok chat wallet_address envs
       \<lparr>last_check_timestamp = 0, activity_name_bound = False\<rparr>"

subsection \<open>\<^verbatim>\<open>get_specific_activity.py\<close>\<close>

text \<open>The body of the \<^verbatim>\<open>try\<close>, lines 166 to 171: the test is \<^verbatim>\<open>>\<close>.\<close>

definition newer_specific :: "pylib \<Rightarrow> int \<Rightarrow> json \<Rightarrow> exn + bool" where
  "newer_specific L lct ts =
     (case convert_str L ts of
        Inl e \<Rightarrow> Inl e
      | Inr t \<Rightarrow> py_gt t lct)"

fun classify_specific :: "pylib \<Rightarrow> int \<Rightarrow> json list \<Rightarrow> exn + dict list" where
  "classify_specific L lct [] = Inr []"
| "classify_specific L lct (activity # rest) =
     (case as_dict activity of
        Inl e \<Rightarrow> Inl e
      | Inr d \<Rightarrow>
          (case (if truthy (dict_get d ''timestamp'')
                 then except_continue (newer_specific L lct (dict_get d ''timestamp''))
                 else Inr False) of
             Inl e \<Rightarrow> Inl e
           | Inr is_new \<Rightarrow>
               (case classify_specific L lct rest of
                  Inl e \<Rightarrow> Inl e
                | Inr new \<Rightarrow> Inr (if is_new then d # new else new))))"

text \<open>Lines 186 to 206 for one new activity.\<close>

definition display_specific :: "pylib \<Rightarrow> dict \<Rightarrow> exn + unit" where
  "display_specific L activity =
     (case float_exn L (dict_get_default activity ''size'' (JInt 0)) of
        Some e \<Rightarrow> Inl e
      | None \<Rightarrow>
     (case float_exn L (dict_get_default activity ''price'' (JInt 0)) of
        Some e \<Rightarrow> Inl e
      | None \<Rightarrow>
          if has_key activity ''timestamp'' then
            (case py_int L (dict_get activity ''timestamp'') of
               Inl e \<Rightarrow> Inl e
             | Inr n \<Rightarrow>
                 (case fromtimestamp_exn L n of Some e \<Rightarrow> Inl e | None \<Rightarrow> Inr ()))
          else Inr ()))"

fun display_all_specific :: "pylib \<Rightarrow> dict list \<Rightarrow> exn + unit" where
  "display_all_specific L [] = Inr ()"
| "display_all_specific L (activity # rest) =
     (case display_specific L activity of
        Inl e \<Rightarrow> Inl e
      | Inr u \<Rightarrow> display_all_specific L rest)"

text \<open>
  One message for the whole cycle, sent after the loop; the watermark becomes
  \<^verbatim>\<open>current_timestamp\<close>, the clock read at the top of the cycle, on every path.
\<close>

definition monitor_cycle_specific ::
  "pylib \<Rightarrow> string option \<Rightarrow> string option \<Rightarrow> (nat \<Rightarrow> http_reply) \<Rightarrow> int \<Rightarrow> int \<Rightarrow> json
     \<Rightarrow> exn + int cycle_result"
where
  "monitor_cycle_specific L telegram_bot_token telegram_chat_id rep current_timestamp
       lct activities =
     (if truthy activities then
        (case py_iter activities of
           Inl e \<Rightarrow> Inl e
         | Inr items \<Rightarrow>
        (case classify_specific L lct items of
           Inl e \<Rightarrow> Inl e
         | Inr new \<Rightarrow>
             if new \<noteq> [] then
               (case display_all_specific L new of
                  Inl e \<Rightarrow> Inl e
                | Inr u \<Rightarrow>
                    Inr \<lparr>next_state = current_timestamp, new_activities = new,
                         telegram_attempts =
                           (if telegram_enabled telegram_bot_token telegram_chat_id
                            then [(new, send_telegram_message (rep 0))] else [])\<rparr>)
             else Inr \<lparr>next_state = current_timestamp, new_activities = [],
                       telegram_attempts = []\<rparr>))
      else Inr \<lparr>next_state = current_timestamp, new_activities = [],
                telegram_attempts = []\<rparr>)"

definition monitor_poll_specific ::
  "pylib \<Rightarrow> string option \<Rightarrow> string option \<Rightarrow> string \<Rightarrow> json list option \<Rightarrow> http
     \<Rightarrow> (nat \<Rightarrow> http_reply) \<Rightarrow> int \<Rightarrow> int \<Rightarrow> exn + int cycle_result"
where
  "monitor_poll_specific L telegram_bot_token telegram_chat_id wallet_address
       market_condition_ids H rep current_timestamp lct =
     (case snd (get_user_activity_specific L H wallet_address market_condition_ids) of
        Inl e \<Rightarrow> Inl e
      | Inr activities \<Rightarrow>
          monitor_cycle_specific L telegram_bot_token telegram_chat_id rep
            current_timestamp lct activities)"

section \<open>Supervisor: \<^verbatim>\<open>main\<close> of \<^verbatim>\<open>main.py\<close>\<close>

text \<open>
  \<^verbatim>\<open>main\<close> creates one task per wallet and awaits \<^verbatim>\<open>asyncio.gather\<close> of them. A
  task gives up control only at \<^verbatim>\<open>await asyncio.sleep(interval)\<close>, the last statement
  of a cycle (\<^verbatim>\<open>requests\<close> blocks), so a run is an interleaving of whole cycles: a
  schedule names, for each cycle, the task that runs it and the network it meets. Each
  task has its own \<open>mstate\<close>, the locals of its coroutine. An exception in one task
  leaves \<^verbatim>\<open>gather\<close>, then \<^verbatim>\<open>main\<close>, and \<^verbatim>\<open>asyncio.run\<close> cancels the others: the
  run ends.
\<close>

definition wallets :: "string list" where
  "wallets =
     [''0x37e4728b3c4607fb2b3b205386bb1d1fb1a8c991'',
      ''0x006cc834cc092684f1b56626e23bedb3835c16ea'']"

fun run_tasks ::
  "pylib \<Rightarrow> string option \<Rightarrow> string option \<Rightarrow> string list
     \<Rightarrow> (nat \<times> http \<times> (nat \<Rightarrow> http_reply)) list \<Rightarrow> mstate list \<Rightarrow> exn + mstate list"
where
  "run_tasks L tok chat ws [] sts = Inr sts"
| "run_tasks L tok chat ws (ev # sched) sts =
     (if fst ev < length ws \<and> fst ev < length sts then
        (case monitor_poll_main L tok chat (ws ! fst ev) (fst (snd ev)) (snd (snd ev))
                (sts ! fst ev) of
           Inl e \<Rightarrow> Inl e
         | Inr out \<Rightarrow> run_tasks L tok chat ws sched (sts[fst ev := next_state out]))
      else run_tasks L tok chat ws sched sts)"

definition main_run ::
  "pylib \<Rightarrow> string option \<Rightarrow> string option \<Rightarrow> (nat \<times> http \<times> (nat \<Rightarrow> http_reply)) list
     \<Rightarrow> exn + mstate list"
where
  "main_run L tok chat sched =
     run_tasks L tok chat wallets sched
       (map (\<lambda>w. \<lparr>last_check_timestamp = 0, activity_name_bound = False\<rparr>) wallets)"

section \<open>A library and a network to evaluate with\<close>

text \<open>
  The general theorems below hold for every library \<open>L\<close>. To run the model on a
  concrete input, \<open>plain_lib\<close> is one library: \<^verbatim>\<open>int\<close> of an optionally signed
  string of ASCII digits, \<^verbatim>\<open>float\<close> raising on \<^verbatim>\<open>None\<close>, lists, dictionaries
  and strings that are no plain integer, \<^verbatim>\<open>fromtimestamp\<close> accepting the seconds of
  the years 1970 to 9999, and \<^verbatim>\<open>in\<close> as structural equality. On the inputs evaluated
  below CPython does the same.
\<close>

fun digits_acc :: "nat \<Rightarrow> string \<Rightarrow> nat option" where
  "digits_acc a [] = Some a"
| "digits_acc a (c # cs) =
     (if 48 \<le> (of_char c :: nat) \<and> (of_char c :: nat) \<le> 57
      then digits_acc (10 * a + (of_char c - 48)) cs else None)"

definition digits :: "string \<Rightarrow> nat option" where
  "digits s = (if s = [] then None else digits_acc 0 s)"

fun plain_int :: "string \<Rightarrow> int option" where
  "plain_int [] = None"
| "plain_int (c # cs) =
     (if c = CHR ''-'' then map_option (\<lambda>n. - int n) (digits cs)
      else if c = CHR ''+'' then map_option int (digits cs)
      else map_option int (digits (c # cs)))"

fun plain_float_exn :: "json \<Rightarrow> exn option" where
  "plain_float_exn JNull = Some TypeError"
| "plain_float_exn (JArr xs) = Some TypeError"
| "plain_float_exn (JObj kvs) = Some TypeError"
| "plain_float_exn (JStr s) = (if plain_int s = None then Some ValueError else None)"
| "plain_float_exn (JBool b) = None"
| "plain_float_exn (JInt n) = None"
| "plain_float_exn (JFloat f) = None"

definition plain_lib :: pylib where
  "plain_lib =
     \<lparr>int_of_str = plain_int,
      float_exn = plain_float_exn,
      fromtimestamp_exn = (\<lambda>n. if 0 \<le> n \<and> n \<le> 253402300799 then None else Some ValueError),
      py_in = (\<lambda>x xs. x \<in> set xs)\<rparr>"

text \<open>A network that is down, and one that answers every POST with status 200.\<close>

definition network_down :: http where
  "network_down = (\<lambda>req. ConnectionFailed)"

definition posts_fail :: "nat \<Rightarrow> http_reply" where
  "posts_fail = (\<lambda>k. ConnectionFailed)"

definition posts_ok :: "nat \<Rightarrow> http_reply" where
  "posts_ok = (\<lambda>k. Reply 200 None)"


definition second_post_fails :: "nat \<Rightarrow> http_reply" where
  "second_post_fails = (\<lambda>k. if k = 1 then ConnectionFailed else Reply 200 None)"

definition feed :: "json \<Rightarrow> http" where
  "feed body = (\<lambda>req. Reply 200 (Some body))"


section \<open>Notions used in the statements\<close>

text \<open>
  The dictionaries of a list of objects, or the \<^verbatim>\<open>AttributeError\<close> of the first
  element that is none.
\<close>

fun all_dicts :: "json list \<Rightarrow> exn + dict list" where
  "all_dicts [] = Inr []"
| "all_dicts (a # rest) =
     (case as_dict a of
        Inl e \<Rightarrow> Inl e
      | Inr d \<Rightarrow> (case all_dicts rest of Inl e \<Rightarrow> Inl e | Inr ds \<Rightarrow> Inr (d # ds)))"

text \<open>
  The records each variant selects: the timestamp is truthy and the test of the
  \<^verbatim>\<open>try\<close> body ends with \<open>True\<close>.
\<close>

definition selected_main :: "pylib \<Rightarrow> int \<Rightarrow> dict \<Rightarrow> bool" where
  "selected_main L lct d =
     (truthy (dict_get d ''timestamp'') \<and> newer_main L lct (dict_get d ''timestamp'') = Inr True)"

definition selected_specific :: "pylib \<Rightarrow> int \<Rightarrow> dict \<Rightarrow> bool" where
  "selected_specific L lct d =
     (truthy (dict_get d ''timestamp'')
      \<and> newer_specific L lct (dict_get d ''timestamp'') = Inr True)"

text \<open>
  The display part of the notification loop of \<^verbatim>\<open>main.py\<close> alone: the running
  maximum, or the first exception.
\<close>

fun scan_main :: "pylib \<Rightarrow> dict list \<Rightarrow> int \<Rightarrow> exn + int" where
  "scan_main L [] latest = Inr latest"
| "scan_main L (activity # rest) latest =
     (case display_main L activity latest of
        Inl e \<Rightarrow> Inl e
      | Inr latest' \<Rightarrow> scan_main L rest latest')"

text \<open>
  The messages of a cycle of \<^verbatim>\<open>main.py\<close> when Telegram is configured: one for each
  new record, in order, the \<open>k\<close>-th POST answered by \<open>rep k\<close>.
\<close>

fun attempts_from :: "(nat \<Rightarrow> http_reply) \<Rightarrow> dict list \<Rightarrow> nat \<Rightarrow> (dict list \<times> bool) list" where
  "attempts_from rep [] k = []"
| "attempts_from rep (activity # rest) k =
     ([activity], send_telegram_message (rep k)) # attempts_from rep rest (Suc k)"

text \<open>
  A reply that makes one of the three lines of \<open>get_json\<close> raise: no connection, an
  error status (the transport and HTTP errors), or a body that does not parse.
\<close>

fun transport_error :: "http_reply \<Rightarrow> bool" where
  "transport_error ConnectionFailed = True"
| "transport_error (Reply st body) = raise_for_status st"

fun reply_fails :: "http_reply \<Rightarrow> bool" where
  "reply_fails ConnectionFailed = True"
| "reply_fails (Reply st body) = (raise_for_status st \<or> body = None)"


text \<open>The cycles of task \<open>j\<close> in a schedule, in order.\<close>

definition events_of ::
  "nat \<Rightarrow> (nat \<times> http \<times> (nat \<Rightarrow> http_reply)) list \<Rightarrow> (http \<times> (nat \<Rightarrow> http_reply)) list"
where
  "events_of j sched = map snd (filter (\<lambda>ev. fst ev = j) sched)"

text \<open>The upstream honours \<^verbatim>\<open>limit=n\<close>: a list it returns has at most \<open>n\<close> elements.\<close>

text \<open>The number of elements of the list a reply holds; none when it holds no list.\<close>

fun reply_length :: "http_reply \<Rightarrow> nat" where
  "reply_length (Reply st (Some (JArr xs))) = length xs"
| "reply_length r = 0"

fun reply_within_limit :: "http_reply \<Rightarrow> nat \<Rightarrow> bool" where
  "reply_within_limit (Reply st (Some (JArr xs))) n = (length xs \<le> n)"
| "reply_within_limit r n = True"

section \<open>The classification and the notification loop in closed form\<close>

text \<open>
  The handler of the newness test catches everything the test can raise, so the
  classification of a feed is a filter of its dictionaries.
\<close>

lemma except_newer_specific:
  "except_continue (newer_specific L W ts) = Inr (newer_specific L W ts = Inr True)"
proof (cases ts)
  case (JFloat f)
  then show ?thesis
    by (cases f) (simp_all add: except_continue_def newer_specific_def convert_str_def)
next
  case (JStr s)
  then show ?thesis
    by (cases "int_of_str L s") (simp_all add: except_continue_def newer_specific_def convert_str_def)
qed (simp_all add: except_continue_def newer_specific_def convert_str_def)

lemma except_newer_main:
  "except_continue (newer_main L W ts) = Inr (newer_main L W ts = Inr True)"
proof (cases ts)
  case (JStr s)
  then show ?thesis
    by (cases "int_of_str L s") (simp_all add: except_continue_def newer_main_def convert_str_def)
qed (simp_all add: except_continue_def newer_main_def convert_str_def)

lemma is_new_specific:
  "(if truthy ts then except_continue (newer_specific L W ts) else Inr False) =
     Inr (truthy ts \<and> newer_specific L W ts = Inr True)"
  by (simp add: except_newer_specific)

lemma is_new_main:
  "(if truthy ts then except_continue (newer_main L W ts) else Inr False) =
     Inr (truthy ts \<and> newer_main L W ts = Inr True)"
  by (simp add: except_newer_main)

lemma classify_specific_eq:
  "classify_specific L W items = map_sum id (filter (selected_specific L W)) (all_dicts items)"
proof (induction items)
  case Nil
  show ?case by simp
next
  case (Cons a items)
  show ?case
  proof (cases "as_dict a")
    case (Inl e)
    then show ?thesis by simp
  next
    case (Inr d)
    have "classify_specific L W (a # items) =
            (case classify_specific L W items of
               Inl e \<Rightarrow> Inl e
             | Inr new \<Rightarrow> Inr (if selected_specific L W d then d # new else new))"
      unfolding classify_specific.simps Inr is_new_specific selected_specific_def by simp
    then show ?thesis
      using Cons.IH Inr by (cases "all_dicts items") simp_all
  qed
qed

lemma classify_main_eq:
  "classify_main L W items = map_sum id (filter (selected_main L W)) (all_dicts items)"
proof (induction items)
  case Nil
  show ?case by simp
next
  case (Cons a items)
  show ?case
  proof (cases "as_dict a")
    case (Inl e)
    then show ?thesis by simp
  next
    case (Inr d)
    have "classify_main L W (a # items) =
            (case classify_main L W items of
               Inl e \<Rightarrow> Inl e
             | Inr new \<Rightarrow> Inr (if selected_main L W d then d # new else new))"
      unfolding classify_main.simps Inr is_new_main selected_main_def by simp
    then show ?thesis
      using Cons.IH Inr by (cases "all_dicts items") simp_all
  qed
qed

text \<open>
  The notification loop of \<^verbatim>\<open>main.py\<close> is its display part together with one
  message for each record.
\<close>

lemma notify_main_off:
  "notify_main L False rep new latest k = map_sum id (\<lambda>w. (w, [])) (scan_main L new latest)"
proof (induction new arbitrary: latest k)
  case Nil
  show ?case by simp
next
  case (Cons a new)
  show ?case
  proof (cases "display_main L a latest")
    case (Inl e)
    then show ?thesis by simp
  next
    case (Inr l')
    then show ?thesis using Cons.IH [of l' k] by simp
  qed
qed

lemma notify_main_on:
  "notify_main L True rep new latest k =
     map_sum id (\<lambda>w. (w, attempts_from rep new k)) (scan_main L new latest)"
proof (induction new arbitrary: latest k)
  case Nil
  show ?case by simp
next
  case (Cons a new)
  show ?case
  proof (cases "display_main L a latest")
    case (Inl e)
    then show ?thesis by simp
  next
    case (Inr l')
    then show ?thesis
      using Cons.IH [of l' "Suc k"] by (cases "scan_main L new l'") simp_all
  qed
qed

lemma notify_main_eq:
  "notify_main L tg rep new latest k =
     map_sum id (\<lambda>w. (w, if tg then attempts_from rep new k else []))
       (scan_main L new latest)"
  by (cases tg) (simp_all add: notify_main_on notify_main_off)

lemma attempts_from_fst: "map fst (attempts_from rep new k) = map (\<lambda>a. [a]) new"
  by (induction new arbitrary: k) simp_all

lemma attempts_from_length: "length (attempts_from rep new k) = length new"
  by (induction new arbitrary: k) simp_all

lemma attempts_from_nth:
  "i < length new \<Longrightarrow>
     attempts_from rep new k ! i = ([new ! i], send_telegram_message (rep (k + i)))"
proof (induction new arbitrary: k i)
  case Nil
  then show ?case by simp
next
  case (Cons a new)
  then show ?case by (cases i) simp_all
qed

lemma display_main_mono:
  "display_main L a latest = Inr l' \<Longrightarrow> latest \<le> l'"
  by (auto simp: display_main_def split: option.splits sum.splits if_splits)

lemma display_main_covers:
  "display_main L a latest = Inr l' \<Longrightarrow> has_key a ''timestamp'' \<Longrightarrow>
     \<exists>n. py_int L (dict_get a ''timestamp'') = Inr n \<and> n \<le> l'"
  by (auto simp: display_main_def split: option.splits sum.splits if_splits)

lemma scan_main_mono:
  "scan_main L new latest = Inr w \<Longrightarrow> latest \<le> w"
proof (induction new arbitrary: latest)
  case Nil
  then show ?case by simp
next
  case (Cons a new)
  then obtain l' where d: "display_main L a latest = Inr l'" and s: "scan_main L new l' = Inr w"
    by (auto split: sum.splits)
  from display_main_mono [OF d] Cons.IH [OF s] show ?case by simp
qed

lemma scan_main_covers:
  "scan_main L new latest = Inr w \<Longrightarrow> a \<in> set new \<Longrightarrow> has_key a ''timestamp'' \<Longrightarrow>
     \<exists>n. py_int L (dict_get a ''timestamp'') = Inr n \<and> n \<le> w"
proof (induction new arbitrary: latest)
  case Nil
  then show ?case by simp
next
  case (Cons b new)
  then obtain l' where d: "display_main L b latest = Inr l'" and s: "scan_main L new l' = Inr w"
    by (auto split: sum.splits)
  show ?case
  proof (cases "a = b")
    case True
    with display_main_covers [OF d] Cons.prems(3) scan_main_mono [OF s] show ?thesis
      by fastforce
  next
    case False
    with Cons.prems have "a \<in> set new" by simp
    from Cons.IH [OF s this Cons.prems(3)] show ?thesis .
  qed
qed

lemma truthy_has_key: "truthy (dict_get d k) \<Longrightarrow> has_key d k"
  by (auto simp: dict_get_def has_key_def split: option.splits)

lemma selected_main_has_key: "selected_main L W d \<Longrightarrow> has_key d ''timestamp''"
  by (simp add: selected_main_def truthy_has_key)

text \<open>What a cycle that returns has done.\<close>

lemma cycle_main_cases:
  assumes "monitor_cycle_main L tok chat rep st acts = Inr out"
  shows "(new_activities out = [] \<and> next_state out = st \<and> telegram_attempts out = [])
       \<or> (\<exists>items ds w.
             py_iter acts = Inr items \<and> all_dicts items = Inr ds
           \<and> new_activities out = filter (selected_main L (last_check_timestamp st)) ds
           \<and> new_activities out \<noteq> []
           \<and> scan_main L (new_activities out) (last_check_timestamp st) = Inr w
           \<and> next_state out = \<lparr>last_check_timestamp = w, activity_name_bound = True\<rparr>
           \<and> telegram_attempts out =
               (if telegram_enabled tok chat then attempts_from rep (new_activities out) 0
                else []))"
proof (cases "truthy acts")
  case False
  with assms show ?thesis
    by (auto simp: monitor_cycle_main_def split: if_splits)
next
  case True
  with assms obtain items where it: "py_iter acts = Inr items"
    by (auto simp: monitor_cycle_main_def split: sum.splits)
  with assms True obtain ds where ds: "all_dicts items = Inr ds"
    by (cases "all_dicts items") (auto simp: monitor_cycle_main_def classify_main_eq)
  let ?new = "filter (selected_main L (last_check_timestamp st)) ds"
  have cl: "classify_main L (last_check_timestamp st) items = Inr ?new"
    by (simp add: classify_main_eq ds)
  show ?thesis
  proof (cases "?new = []")
    case e: True
    with assms True it cl show ?thesis
      by (auto simp: monitor_cycle_main_def split: if_splits)
  next
    case ne: False
    with assms True it cl obtain w where
      w: "scan_main L ?new (last_check_timestamp st) = Inr w"
      by (cases "scan_main L ?new (last_check_timestamp st)")
         (auto simp: monitor_cycle_main_def notify_main_eq)
    with assms True it cl ne have
      "out = \<lparr>next_state = \<lparr>last_check_timestamp = w, activity_name_bound = True\<rparr>,
              new_activities = ?new,
              telegram_attempts =
                (if telegram_enabled tok chat then attempts_from rep ?new 0 else [])\<rparr>"
      by (simp add: monitor_cycle_main_def notify_main_eq)
    with it ds ne w show ?thesis by simp
  qed
qed

lemma cycle_specific_cases:
  assumes "monitor_cycle_specific L tok chat rep now W acts = Inr out"
  shows "next_state out = now \<and>
        ((new_activities out = [] \<and> telegram_attempts out = [])
       \<or> (\<exists>items ds.
             py_iter acts = Inr items \<and> all_dicts items = Inr ds
           \<and> new_activities out = filter (selected_specific L W) ds
           \<and> new_activities out \<noteq> []
           \<and> display_all_specific L (new_activities out) = Inr ()
           \<and> telegram_attempts out =
               (if telegram_enabled tok chat
                then [(new_activities out, send_telegram_message (rep 0))] else [])))"
proof (cases "truthy acts")
  case False
  with assms show ?thesis
    by (auto simp: monitor_cycle_specific_def split: if_splits)
next
  case True
  with assms obtain items where it: "py_iter acts = Inr items"
    by (auto simp: monitor_cycle_specific_def split: sum.splits)
  with assms True obtain ds where ds: "all_dicts items = Inr ds"
    by (cases "all_dicts items") (auto simp: monitor_cycle_specific_def classify_specific_eq)
  let ?new = "filter (selected_specific L W) ds"
  have cl: "classify_specific L W items = Inr ?new"
    by (simp add: classify_specific_eq ds)
  show ?thesis
  proof (cases "?new = []")
    case e: True
    with assms True it cl show ?thesis
      by (auto simp: monitor_cycle_specific_def split: if_splits)
  next
    case ne: False
    with assms True it cl have w: "display_all_specific L ?new = Inr ()"
      by (cases "display_all_specific L ?new") (auto simp: monitor_cycle_specific_def)
    with assms True it cl ne have
      "out = \<lparr>next_state = now, new_activities = ?new,
              telegram_attempts =
                (if telegram_enabled tok chat
                 then [(?new, send_telegram_message (rep 0))] else [])\<rparr>"
      by (simp add: monitor_cycle_specific_def)
    with it ds ne w show ?thesis by simp
  qed
qed

lemma selected_specific_int:
  "dict_get d ''timestamp'' = JInt n \<Longrightarrow> selected_specific L W d = (n \<noteq> 0 \<and> W < n)"
  by (simp add: selected_specific_def newer_specific_def convert_str_def)

lemma selected_specific_str:
  "dict_get d ''timestamp'' = JStr s \<Longrightarrow>
     selected_specific L W d = (s \<noteq> [] \<and> (\<exists>n. int_of_str L s = Some n \<and> W < n))"
  by (cases "int_of_str L s") (simp_all add: selected_specific_def newer_specific_def convert_str_def)

lemma selected_main_int:
  "dict_get d ''timestamp'' = JInt n \<Longrightarrow> selected_main L W d = (n \<noteq> 0 \<and> n \<noteq> W)"
  by (simp add: selected_main_def newer_main_def convert_str_def)

lemma selected_specific_coercible:
  assumes "selected_specific L W d" and "dict_get d ''timestamp'' \<noteq> JFloat PInf"
  shows "\<exists>n. py_int L (dict_get d ''timestamp'') = Inr n"
proof (cases "dict_get d ''timestamp''")
  case (JFloat f)
  with assms show ?thesis
    by (cases f) (simp_all add: selected_specific_def newer_specific_def convert_str_def)
next
  case (JStr s)
  with assms show ?thesis
    by (cases "int_of_str L s") (simp_all add: selected_specific_def newer_specific_def convert_str_def)
qed (use assms in \<open>simp_all add: selected_specific_def newer_specific_def convert_str_def\<close>)

lemma specific_new_records:
  "classify_specific L W (map JObj ds) = Inr (filter (selected_specific L W) ds)"
proof -
  have "all_dicts (map JObj ds) = Inr ds" by (induction ds) simp_all
  then show ?thesis by (simp add: classify_specific_eq)
qed

lemmas eval_defs =
  monitor_cycle_main_def monitor_cycle_specific_def notify_main_eq classify_main_eq
  classify_specific_eq selected_main_def selected_specific_def newer_main_def
  newer_specific_def convert_str_def dict_get_def dict_get_default_def has_key_def
  display_main_def display_specific_def plain_lib_def telegram_enabled_def opt_truthy_def
  posts_fail_def posts_ok_def

section \<open>New records (C1)\<close>

text \<open>
  C1 says that the new records are exactly the records of the feed whose timestamp
  is coercible to an integer and strictly greater than the watermark. In
  \<^verbatim>\<open>main.py\<close> the test below the comment ``Only include activities newer than our
  last check'' is \<^verbatim>\<open>!=\<close>: with the watermark at 100, a record with timestamp 90 is
  classified as new. (\<open>specific_new_records\<close> and \<open>selected_specific_int\<close> above
  give what \<^verbatim>\<open>get_specific_activity.py\<close> selects, with \<^verbatim>\<open>>\<close>.)
\<close>

theorem main_selects_older_record:
  "classify_main L 100 [JObj [(''timestamp'', JInt 90)]] = Inr [[(''timestamp'', JInt 90)]]"
  by (simp add: classify_main_eq selected_main_def newer_main_def convert_str_def dict_get_def)

section \<open>The watermark after a cycle (C2)\<close>

text \<open>
  C2 says that the watermark never regresses and stays as it is when no record is
  new. In \<^verbatim>\<open>get_specific_activity.py\<close> the watermark after a cycle is the clock read
  at the top of the cycle: with the watermark at 100, the clock at 200 and an empty
  feed, no record is new and the watermark becomes 200.
\<close>

theorem specific_watermark_follows_clock:
  "monitor_cycle_specific plain_lib None None posts_fail 200 100 (JArr []) =
     Inr \<lparr>next_state = 200, new_activities = [], telegram_attempts = []\<rparr>"
  by (simp add: monitor_cycle_specific_def)

text \<open>
  C2 as amended: in \<^verbatim>\<open>main.py\<close> the watermark after a cycle that returns is at
  least the watermark before it, and the state is unchanged when no record is new; in
  \<^verbatim>\<open>get_specific_activity.py\<close> the watermark after a cycle that returns is the clock
  reading of that cycle, whatever was fetched.
\<close>

theorem watermark_after_cycle:
  "(monitor_cycle_main L tok chat rep st acts = Inr out \<longrightarrow>
      last_check_timestamp st \<le> last_check_timestamp (next_state out)
    \<and> (new_activities out = [] \<longrightarrow> next_state out = st))
 \<and> (monitor_cycle_specific L tok chat rep now W acts' = Inr out' \<longrightarrow> next_state out' = now)"
proof (intro conjI impI)
  assume a: "monitor_cycle_main L tok chat rep st acts = Inr out"
  from cycle_main_cases [OF a]
  show "last_check_timestamp st \<le> last_check_timestamp (next_state out)"
    by (auto dest: scan_main_mono)
  assume "new_activities out = []"
  with cycle_main_cases [OF a] show "next_state out = st" by auto
next
  assume "monitor_cycle_specific L tok chat rep now W acts' = Inr out'"
  from cycle_specific_cases [OF this] show "next_state out' = now" by simp
qed

theorem watermark_after_cycle_witness:
  "monitor_cycle_main plain_lib None None posts_fail
     \<lparr>last_check_timestamp = 100, activity_name_bound = True\<rparr>
     (JArr [JObj [(''timestamp'', JInt 150)]]) =
     Inr \<lparr>next_state = \<lparr>last_check_timestamp = 150, activity_name_bound = True\<rparr>,
          new_activities = [[(''timestamp'', JInt 150)]], telegram_attempts = []\<rparr>
 \<and> (100::int) \<le> 150
 \<and> monitor_cycle_main plain_lib None None posts_fail
     \<lparr>last_check_timestamp = 100, activity_name_bound = True\<rparr>
     (JArr [JObj [(''timestamp'', JInt 100)]]) =
     Inr \<lparr>next_state = \<lparr>last_check_timestamp = 100, activity_name_bound = True\<rparr>,
          new_activities = [], telegram_attempts = []\<rparr>
 \<and> monitor_cycle_specific plain_lib None None posts_fail 200 100 (JArr []) =
     Inr \<lparr>next_state = 200, new_activities = [], telegram_attempts = []\<rparr>"
  using watermark_after_cycle [of plain_lib None None posts_fail
      "\<lparr>last_check_timestamp = 100, activity_name_bound = True\<rparr>"
      "JArr [JObj [(''timestamp'', JInt 150)]]"
      "\<lparr>next_state = \<lparr>last_check_timestamp = 150, activity_name_bound = True\<rparr>,
          new_activities = [[(''timestamp'', JInt 150)]], telegram_attempts = []\<rparr>"
      200 100 "JArr []"
      "\<lparr>next_state = 200, new_activities = [], telegram_attempts = []\<rparr>"]
    watermark_after_cycle [of plain_lib None None posts_fail
      "\<lparr>last_check_timestamp = 100, activity_name_bound = True\<rparr>"
      "JArr [JObj [(''timestamp'', JInt 100)]]"
      "\<lparr>next_state = \<lparr>last_check_timestamp = 100, activity_name_bound = True\<rparr>,
          new_activities = [], telegram_attempts = []\<rparr>"
      200 100 "JArr []"
      "\<lparr>next_state = 200, new_activities = [], telegram_attempts = []\<rparr>"]
  by (simp add: eval_defs)

section \<open>The scenario with watermark 100 and timestamps 90, 150, 100 (C3)\<close>

text \<open>
  C3 says that with watermark 100 and a feed with timestamps 90, 150, 100 exactly the
  record with timestamp 150 is new and the next watermark is 150. Neither variant
  does both: \<^verbatim>\<open>main.py\<close> also classifies the record with timestamp 90 as new, and
  \<^verbatim>\<open>get_specific_activity.py\<close>, with the clock at 1000, moves the watermark to 1000.
\<close>

theorem scenario_fails_in_both_variants:
  "monitor_cycle_main plain_lib None None posts_fail
     \<lparr>last_check_timestamp = 100, activity_name_bound = True\<rparr>
     (JArr [JObj [(''timestamp'', JInt 90)], JObj [(''timestamp'', JInt 150)],
            JObj [(''timestamp'', JInt 100)]]) =
     Inr \<lparr>next_state = \<lparr>last_check_timestamp = 150, activity_name_bound = True\<rparr>,
          new_activities = [[(''timestamp'', JInt 90)], [(''timestamp'', JInt 150)]],
          telegram_attempts = []\<rparr>
 \<and> monitor_cycle_specific plain_lib None None posts_fail 1000 100
     (JArr [JObj [(''timestamp'', JInt 90)], JObj [(''timestamp'', JInt 150)],
            JObj [(''timestamp'', JInt 100)]]) =
     Inr \<lparr>next_state = 1000, new_activities = [[(''timestamp'', JInt 150)]],
          telegram_attempts = []\<rparr>"
  by (simp add: eval_defs)

text \<open>
  C3 as amended: on this input \<^verbatim>\<open>get_specific_activity.py\<close> classifies exactly the
  record with timestamp 150 as new and its next watermark is the clock reading of the
  cycle; \<^verbatim>\<open>main.py\<close> produces the next watermark 150.
\<close>

theorem scenario_by_variant:
  "classify_specific L 100
     [JObj [(''timestamp'', JInt 90)], JObj [(''timestamp'', JInt 150)],
      JObj [(''timestamp'', JInt 100)]] = Inr [[(''timestamp'', JInt 150)]]
 \<and> map_sum id next_state
     (monitor_cycle_specific plain_lib tok chat rep now 100
       (JArr [JObj [(''timestamp'', JInt 90)], JObj [(''timestamp'', JInt 150)],
              JObj [(''timestamp'', JInt 100)]])) = Inr now
 \<and> map_sum id (\<lambda>out. last_check_timestamp (next_state out))
     (monitor_cycle_main plain_lib tok chat rep
       \<lparr>last_check_timestamp = 100, activity_name_bound = b\<rparr>
       (JArr [JObj [(''timestamp'', JInt 90)], JObj [(''timestamp'', JInt 150)],
              JObj [(''timestamp'', JInt 100)]])) = Inr 150"
  by (simp add: eval_defs)

section \<open>Records with a malformed timestamp (C4)\<close>

text \<open>
  C4 says that a record whose timestamp is missing or not coercible to an integer
  is dropped, is never among the new records and never makes the cycle raise. In
  \<^verbatim>\<open>main.py\<close> a timestamp that is a non-empty list is truthy, is no string, and
  differs from every watermark; \<^verbatim>\<open>!=\<close> raises nothing for the handler to catch.
  The record is classified as new, and \<^verbatim>\<open>int(activity.get('timestamp'))\<close> in the
  notification loop, outside any \<^verbatim>\<open>try\<close>, raises \<^verbatim>\<open>TypeError\<close> out of the cycle.
\<close>

theorem main_uncoercible_timestamp:
  "classify_main L 0 [JObj [(''timestamp'', JArr [JInt 1])]] =
     Inr [[(''timestamp'', JArr [JInt 1])]]
 \<and> monitor_cycle_main plain_lib tok chat rep
     \<lparr>last_check_timestamp = 0, activity_name_bound = b\<rparr>
     (JArr [JObj [(''timestamp'', JArr [JInt 1])]]) = Inl TypeError"
  by (simp add: eval_defs)

text \<open>
  In \<^verbatim>\<open>get_specific_activity.py\<close> the selected records have a timestamp that
  \<^verbatim>\<open>int\<close> accepts (\<open>selected_specific_coercible\<close>), with one exception: a float
  infinity, which \<^verbatim>\<open>json\<close> reads from a literal such as \<^verbatim>\<open>1e999\<close>, is greater than
  every watermark.
\<close>

lemma specific_infinite_timestamp:
  "monitor_cycle_specific plain_lib tok chat rep now W
     (JArr [JObj [(''timestamp'', JFloat PInf)]]) = Inl OverflowError"
  by (simp add: eval_defs)

section \<open>A failed fetch (C5)\<close>

text \<open>
  On a transport error, an error status or a body that is no JSON, both fetchers
  return the empty list, and the single-wallet loop goes on to its next cycle.
\<close>

lemma get_json_fails: "reply_fails (H req) \<Longrightarrow> get_json H req = Inl RequestException"
  by (cases "H req") (auto simp: get_json_def)

lemma transport_error_fails: "transport_error r \<Longrightarrow> reply_fails r"
  by (cases r) simp_all

lemma get_user_activity_main_failure:
  "reply_fails (H (activity_request_main wallet_address)) \<Longrightarrow>
     snd (get_user_activity_main H wallet_address) = JArr []"
  by (simp add: get_user_activity_main_def get_json_fails)

lemma get_user_activity_specific_failure:
  "reply_fails (H (activity_request_specific wallet_address)) \<Longrightarrow>
     snd (get_user_activity_specific L H wallet_address ids) = Inr (JArr [])"
  by (simp add: get_user_activity_specific_def get_json_fails)

lemma specific_survives_failed_poll:
  "reply_fails (H (activity_request_specific wallet_address)) \<Longrightarrow>
     monitor_poll_specific L tok chat wallet_address ids H rep now W =
       Inr \<lparr>next_state = now, new_activities = [], telegram_attempts = []\<rparr>"
  by (simp add: monitor_poll_specific_def get_user_activity_specific_failure
        monitor_cycle_specific_def)

text \<open>
  C5 says that on a transport or HTTP error the fetcher returns an empty sequence
  and raises nothing, so that a single failed poll cannot end the monitor loop. The
  fetcher of \<^verbatim>\<open>main.py\<close> does return the empty list, but the loop then prints
  \<^verbatim>\<open>activity_name\<close> in its \<^verbatim>\<open>else\<close> branch (line 279), a local that is unbound
  until some cycle has had a new record: when the first poll fails, the loop ends with
  \<^verbatim>\<open>UnboundLocalError\<close>.
\<close>

theorem main_loop_ends_on_failed_first_poll:
  "snd (get_user_activity_main network_down wallet_address) = JArr []
 \<and> monitor_user_trades_main L tok chat wallet_address [(network_down, rep)] =
     Inl UnboundLocalError"
  by (simp add: monitor_user_trades_main_def monitor_poll_main_def get_user_activity_main_def
        get_json_def network_down_def monitor_cycle_main_def)

section \<open>A failed delivery (C6)\<close>

lemma filter_selected_has_key:
  "a \<in> set (filter (selected_main L W) ds) \<Longrightarrow> has_key a ''timestamp''"
  by (auto dest: selected_main_has_key)

text \<open>
  Within one cycle of \<^verbatim>\<open>main.py\<close> with Telegram configured, a failed delivery
  changes nothing else: in a cycle that returns, there is one delivery attempt for each
  new record, in feed order, and the \<open>k\<close>-th attempt has the result of the \<open>k\<close>-th
  POST, whatever the other POSTs did; the committed watermark is at least the integer
  timestamp of every new record; and with any other delivery results \<open>rep'\<close> the
  cycle returns too, with the same state, the same new records and the same records
  attempted.
\<close>

lemma cycle_main_delivery_independent:
  assumes en: "telegram_enabled tok chat"
    and run: "monitor_cycle_main L tok chat rep st acts = Inr out"
  shows "map fst (telegram_attempts out) = map (\<lambda>a. [a]) (new_activities out)
       \<and> map snd (telegram_attempts out) =
           map (\<lambda>k. send_telegram_message (rep k)) [0 ..< length (new_activities out)]
       \<and> (\<forall>a \<in> set (new_activities out).
             \<exists>n. py_int L (dict_get a ''timestamp'') = Inr n
                \<and> n \<le> last_check_timestamp (next_state out))
       \<and> (\<exists>out'. monitor_cycle_main L tok chat rep' st acts = Inr out'
                \<and> next_state out' = next_state out
                \<and> new_activities out' = new_activities out
                \<and> map fst (telegram_attempts out') = map fst (telegram_attempts out))"
proof -
  from cycle_main_cases [OF run] show ?thesis
  proof (elim disjE exE conjE)
    assume q: "new_activities out = []" "next_state out = st" "telegram_attempts out = []"
    have "out = \<lparr>next_state = st, new_activities = [], telegram_attempts = []\<rparr>"
      using q by (cases out) simp
    with run have "monitor_cycle_main L tok chat rep st acts =
        Inr \<lparr>next_state = st, new_activities = [], telegram_attempts = []\<rparr>" by simp
    then have "monitor_cycle_main L tok chat rep' st acts =
        Inr \<lparr>next_state = st, new_activities = [], telegram_attempts = []\<rparr>"
      by (auto simp: monitor_cycle_main_def notify_main_eq classify_main_eq
            split: if_splits sum.splits)
    with q show ?thesis by simp
  next
    fix items ds w
    assume it: "py_iter acts = Inr items" and ds: "all_dicts items = Inr ds"
      and new: "new_activities out = filter (selected_main L (last_check_timestamp st)) ds"
      and ne: "new_activities out \<noteq> []"
      and sc: "scan_main L (new_activities out) (last_check_timestamp st) = Inr w"
      and ns: "next_state out = \<lparr>last_check_timestamp = w, activity_name_bound = True\<rparr>"
      and at: "telegram_attempts out =
                 (if telegram_enabled tok chat then attempts_from rep (new_activities out) 0
                  else [])"
    have tr: "truthy acts"
      using run ne by (auto simp: monitor_cycle_main_def split: if_splits)
    have a1: "map fst (telegram_attempts out) = map (\<lambda>a. [a]) (new_activities out)"
      using at en by (simp add: attempts_from_fst)
    have a2: "map snd (telegram_attempts out) =
                map (\<lambda>k. send_telegram_message (rep k)) [0 ..< length (new_activities out)]"
      using at en
      by (intro nth_equalityI) (simp_all add: attempts_from_length attempts_from_nth)
    have a3: "\<forall>a \<in> set (new_activities out).
                \<exists>n. py_int L (dict_get a ''timestamp'') = Inr n
                   \<and> n \<le> last_check_timestamp (next_state out)"
    proof
      fix a assume a: "a \<in> set (new_activities out)"
      then have "has_key a ''timestamp''"
        unfolding new by (rule filter_selected_has_key)
      from scan_main_covers [OF sc a this] ns
      show "\<exists>n. py_int L (dict_get a ''timestamp'') = Inr n
              \<and> n \<le> last_check_timestamp (next_state out)" by simp
    qed
    let ?out' = "\<lparr>next_state = \<lparr>last_check_timestamp = w, activity_name_bound = True\<rparr>,
                  new_activities = new_activities out,
                  telegram_attempts = attempts_from rep' (new_activities out) 0\<rparr>"
    have "monitor_cycle_main L tok chat rep' st acts = Inr ?out'"
      using tr it ds ne sc en
      by (simp add: monitor_cycle_main_def classify_main_eq notify_main_eq new [symmetric])
    then have a4: "\<exists>out'. monitor_cycle_main L tok chat rep' st acts = Inr out'
                \<and> next_state out' = next_state out
                \<and> new_activities out' = new_activities out
                \<and> map fst (telegram_attempts out') = map fst (telegram_attempts out)"
      using ns a1 by (simp add: attempts_from_fst)
    from a1 a2 a3 a4 show ?thesis by blast
  qed
qed

lemma cycle_main_delivery_independent_example:
  "telegram_enabled (Some ''token'') (Some ''chat'')
 \<and> monitor_cycle_main plain_lib (Some ''token'') (Some ''chat'') second_post_fails
     \<lparr>last_check_timestamp = 100, activity_name_bound = True\<rparr>
     (JArr [JObj [(''timestamp'', JInt 110)], JObj [(''timestamp'', JInt 130)],
            JObj [(''timestamp'', JInt 120)]]) =
     Inr \<lparr>next_state = \<lparr>last_check_timestamp = 130, activity_name_bound = True\<rparr>,
          new_activities = [[(''timestamp'', JInt 110)], [(''timestamp'', JInt 130)],
                            [(''timestamp'', JInt 120)]],
          telegram_attempts = [([[(''timestamp'', JInt 110)]], True),
                               ([[(''timestamp'', JInt 130)]], False),
                               ([[(''timestamp'', JInt 120)]], True)]\<rparr>"
  using cycle_main_delivery_independent [of "Some ''token''" "Some ''chat''" plain_lib
      second_post_fails "\<lparr>last_check_timestamp = 100, activity_name_bound = True\<rparr>"
      "JArr [JObj [(''timestamp'', JInt 110)], JObj [(''timestamp'', JInt 130)],
            JObj [(''timestamp'', JInt 120)]]"
      "\<lparr>next_state = \<lparr>last_check_timestamp = 130, activity_name_bound = True\<rparr>,
          new_activities = [[(''timestamp'', JInt 110)], [(''timestamp'', JInt 130)],
                            [(''timestamp'', JInt 120)]],
          telegram_attempts = [([[(''timestamp'', JInt 110)]], True),
                               ([[(''timestamp'', JInt 130)]], False),
                               ([[(''timestamp'', JInt 120)]], True)]\<rparr>" posts_ok]
  by (simp add: eval_defs second_post_fails_def raise_for_status_def)


section \<open>A failed tag (C7)\<close>


lemma append_markets_not_request:
  "append_markets tag_id ms all_markets \<noteq> Inl RequestException"
proof (induction ms arbitrary: all_markets)
  case Nil
  show ?case by simp
next
  case (Cons m ms)
  then show ?case by (cases m) simp_all
qed



lemma get_json_Inl: "get_json H req = Inl e \<Longrightarrow> reply_fails (H req)"
  by (cases "H req") (auto simp: get_json_def split: if_splits option.splits)

lemma py_iter_not_request: "py_iter j \<noteq> Inl RequestException"
  by (cases j) simp_all

lemma fetch_tag_request_exception:
  "fetch_tag H limit tag_id all_markets = Inl RequestException \<Longrightarrow>
     reply_fails (H (markets_request tag_id limit))"
  by (auto simp: fetch_tag_def append_markets_not_request py_iter_not_request
        split: sum.splits dest: get_json_Inl)






section \<open>Independent watermarks (C8)\<close>

lemma run_tasks_length:
  "run_tasks L tok chat ws sched sts = Inr sts' \<Longrightarrow> length sts' = length sts"
proof (induction sched arbitrary: sts)
  case Nil
  then show ?case by simp
next
  case (Cons ev sched)
  show ?case
  proof (cases "fst ev < length ws \<and> fst ev < length sts")
    case True
    with Cons.prems obtain out :: "mstate cycle_result" where
      "run_tasks L tok chat ws sched (sts[fst ev := next_state out]) = Inr sts'"
      by (auto split: sum.splits)
    from Cons.IH [OF this] show ?thesis by simp
  next
    case False
    with Cons.prems have "run_tasks L tok chat ws sched sts = Inr sts'" by auto
    from Cons.IH [OF this] show ?thesis .
  qed
qed

text \<open>
  C8: in a run of the supervisor over any schedule that does not end with an
  exception, the state of task \<open>j\<close> at the end, its watermark included, is what
  the loop of wallet \<open>j\<close> alone reaches from the state of task \<open>j\<close> at the start
  over the cycles of task \<open>j\<close>: the cycles of the other tasks neither read nor
  write it.
\<close>

theorem watermarks_do_not_interfere:
  assumes "run_tasks L tok chat ws sched sts = Inr sts'"
    and "j < length ws" and "j < length sts"
  shows "length sts' = length sts
       \<and> loop_main L tok chat (ws ! j) (events_of j sched) (sts ! j) = Inr (sts' ! j)"
proof -
  have "loop_main L tok chat (ws ! j) (events_of j sched) (sts ! j) = Inr (sts' ! j)"
    using assms
  proof (induction sched arbitrary: sts)
    case Nil
    then show ?case by (simp add: events_of_def)
  next
    case (Cons ev sched)
    show ?case
    proof (cases "fst ev < length ws \<and> fst ev < length sts")
      case False
      with Cons.prems have r: "run_tasks L tok chat ws sched sts = Inr sts'" by auto
      from False Cons.prems have "fst ev \<noteq> j" by auto
      then have "events_of j (ev # sched) = events_of j sched"
        by (simp add: events_of_def)
      with Cons.IH [OF r Cons.prems(2,3)] show ?thesis by simp
    next
      case True
      with Cons.prems obtain out :: "mstate cycle_result" where
        p: "monitor_poll_main L tok chat (ws ! fst ev) (fst (snd ev)) (snd (snd ev))
              (sts ! fst ev) = Inr out"
        and r: "run_tasks L tok chat ws sched (sts[fst ev := next_state out]) = Inr sts'"
        by (auto split: sum.splits)
      have len: "j < length (sts[fst ev := next_state out])"
        using Cons.prems(3) by simp
      note ih = Cons.IH [OF r Cons.prems(2) len]
      show ?thesis
      proof (cases "fst ev = j")
        case same: True
        then have "events_of j (ev # sched) = snd ev # events_of j sched"
          by (simp add: events_of_def)
        with ih p same Cons.prems(3) show ?thesis by simp
      next
        case other: False
        then have "events_of j (ev # sched) = events_of j sched"
          by (simp add: events_of_def)
        with ih other show ?thesis by simp
      qed
    qed
  qed
  with run_tasks_length [OF assms(1)] show ?thesis by simp
qed

theorem watermarks_do_not_interfere_witness:
  "run_tasks plain_lib None None wallets
     [(0, feed (JArr [JObj [(''timestamp'', JInt 60)]]), posts_ok)]
     [\<lparr>last_check_timestamp = 50, activity_name_bound = True\<rparr>,
      \<lparr>last_check_timestamp = 200, activity_name_bound = True\<rparr>] =
   Inr [\<lparr>last_check_timestamp = 60, activity_name_bound = True\<rparr>,
        \<lparr>last_check_timestamp = 200, activity_name_bound = True\<rparr>]
 \<and> (1::nat) < length wallets
 \<and> events_of 1 [(0, feed (JArr [JObj [(''timestamp'', JInt 60)]]), posts_ok)] = []
 \<and> loop_main plain_lib None None (wallets ! 1) []
       \<lparr>last_check_timestamp = 200, activity_name_bound = True\<rparr> =
     Inr \<lparr>last_check_timestamp = 200, activity_name_bound = True\<rparr>"
  using watermarks_do_not_interfere [of plain_lib None None wallets
      "[(0, feed (JArr [JObj [(''timestamp'', JInt 60)]]), posts_ok)]"
      "[\<lparr>last_check_timestamp = 50, activity_name_bound = True\<rparr>,
        \<lparr>last_check_timestamp = 200, activity_name_bound = True\<rparr>]"
      "[\<lparr>last_check_timestamp = 60, activity_name_bound = True\<rparr>,
        \<lparr>last_check_timestamp = 200, activity_name_bound = True\<rparr>]" 1]
  by (simp add: eval_defs wallets_def events_of_def monitor_poll_main_def
        get_user_activity_main_def get_json_def feed_def raise_for_status_def)

section \<open>One record for each poll (C9)\<close>

lemma all_dicts_length: "all_dicts items = Inr ds \<Longrightarrow> length ds = length items"
proof (induction items arbitrary: ds)
  case Nil
  then show ?case by simp
next
  case (Cons a items)
  then show ?case by (auto split: sum.splits)
qed

lemma all_dicts_strings: "all_dicts (map (\<lambda>x. JStr (f x)) xs) = Inr ds \<Longrightarrow> xs = []"
  by (cases xs) simp_all

lemma iter_dicts_bound:
  assumes "py_iter (case get_json H req of Inl e \<Rightarrow> JArr [] | Inr a \<Rightarrow> a) = Inr items"
    and "all_dicts items = Inr ds"
  shows "length ds \<le> reply_length (H req)"
proof (cases "get_json H req")
  case (Inl e)
  with assms show ?thesis by auto
next
  case (Inr body)
  then obtain st where h: "H req = Reply st (Some body)"
    by (cases "H req") (auto simp: get_json_def split: if_splits option.splits)
  show ?thesis
  proof (cases body)
    case (JArr xs)
    with assms h Inr all_dicts_length [OF assms(2)] show ?thesis by simp
  next
    case (JObj kvs)
    with assms Inr all_dicts_strings [of fst kvs ds] show ?thesis by auto
  next
    case (JStr s)
    with assms Inr all_dicts_strings [of "\<lambda>c. [c]" s ds] show ?thesis by auto
  qed (use assms Inr in simp_all)
qed

lemma reply_within_limit_length: "reply_within_limit r n \<Longrightarrow> reply_length r \<le> n"
  by (induction r n rule: reply_within_limit.induct) simp_all

lemma poll_main_bounds:
  assumes run: "monitor_poll_main L tok chat wallet_address H rep st = Inr out"
  shows "length (new_activities out) \<le> reply_length (H (activity_request_main wallet_address))
       \<and> length (telegram_attempts out) \<le> length (new_activities out)"
proof -
  from run have c: "monitor_cycle_main L tok chat rep st
      (case get_json H (activity_request_main wallet_address) of
         Inl e \<Rightarrow> JArr [] | Inr a \<Rightarrow> a) = Inr out"
    by (simp add: monitor_poll_main_def get_user_activity_main_def)
  have n: "length (new_activities out) \<le> reply_length (H (activity_request_main wallet_address))"
    using cycle_main_cases [OF c]
  proof (elim disjE exE conjE)
    fix items ds w
    assume it: "py_iter (case get_json H (activity_request_main wallet_address) of
                  Inl e \<Rightarrow> JArr [] | Inr a \<Rightarrow> a) = Inr items"
      and ds: "all_dicts items = Inr ds"
      and new: "new_activities out = filter (selected_main L (last_check_timestamp st)) ds"
    have "length (new_activities out) \<le> length ds"
      unfolding new by (rule length_filter_le)
    with iter_dicts_bound [OF it ds] show ?thesis by simp
  qed simp
  from cycle_main_cases [OF c]
  have "length (telegram_attempts out) \<le> length (new_activities out)"
    by (auto simp: attempts_from_length)
  with n show ?thesis by simp
qed

text \<open>
  C9 says that, because the request carries \<^verbatim>\<open>limit=1\<close>, a cycle fetches at most
  one record and can classify and notify at most one. \<open>get_user_activity\<close> returns
  the reply as it is, and the loop goes over all of it: when the upstream answers the
  request with three records newer than the watermark, the cycle classifies three
  records as new and sends three messages.
\<close>

theorem main_three_records_in_one_cycle:
  "monitor_poll_main plain_lib (Some ''token'') (Some ''chat'') ''w''
     (feed (JArr [JObj [(''timestamp'', JInt 110)], JObj [(''timestamp'', JInt 130)],
                  JObj [(''timestamp'', JInt 120)]])) posts_ok
     \<lparr>last_check_timestamp = 100, activity_name_bound = True\<rparr> =
     Inr \<lparr>next_state = \<lparr>last_check_timestamp = 130, activity_name_bound = True\<rparr>,
          new_activities = [[(''timestamp'', JInt 110)], [(''timestamp'', JInt 130)],
                            [(''timestamp'', JInt 120)]],
          telegram_attempts = [([[(''timestamp'', JInt 110)]], True),
                               ([[(''timestamp'', JInt 130)]], True),
                               ([[(''timestamp'', JInt 120)]], True)]\<rparr>"
  by (simp add: eval_defs monitor_poll_main_def get_user_activity_main_def get_json_def
        feed_def raise_for_status_def)

text \<open>
  C9 as amended: \<open>get_user_activity\<close> of \<^verbatim>\<open>main.py\<close> issues one request, with
  \<^verbatim>\<open>limit=1\<close>, \<^verbatim>\<open>sortBy=TIMESTAMP\<close> and \<^verbatim>\<open>sortDirection=DESC\<close>, and does not
  truncate the reply: a poll that returns has classified as new at most as many records
  as the list in the reply holds, and has made at most one delivery attempt for each
  new record.
\<close>

theorem main_requests_limit_one:
  "fst (get_user_activity_main H wallet_address) = [activity_request_main wallet_address]
 \<and> map_of (params (activity_request_main wallet_address)) ''limit'' = Some (JInt 1)
 \<and> map_of (params (activity_request_main wallet_address)) ''sortBy'' = Some (JStr ''TIMESTAMP'')
 \<and> map_of (params (activity_request_main wallet_address)) ''sortDirection'' = Some (JStr ''DESC'')
 \<and> (monitor_poll_main L tok chat wallet_address H rep st = Inr out \<longrightarrow>
        length (new_activities out) \<le> reply_length (H (activity_request_main wallet_address))
      \<and> length (telegram_attempts out) \<le> length (new_activities out))"
proof (intro conjI impI)
  assume run: "monitor_poll_main L tok chat wallet_address H rep st = Inr out"
  from poll_main_bounds [OF run]
  show "length (new_activities out) \<le> reply_length (H (activity_request_main wallet_address))"
    and "length (telegram_attempts out) \<le> length (new_activities out)"
    by simp_all
qed (simp_all add: get_user_activity_main_def activity_request_main_def)

theorem main_requests_limit_one_witness:
  "monitor_poll_main plain_lib (Some ''token'') (Some ''chat'') ''w''
       (feed (JArr [JObj [(''timestamp'', JInt 60)]])) posts_ok
       \<lparr>last_check_timestamp = 0, activity_name_bound = False\<rparr> =
     Inr \<lparr>next_state = \<lparr>last_check_timestamp = 60, activity_name_bound = True\<rparr>,
          new_activities = [[(''timestamp'', JInt 60)]],
          telegram_attempts = [([[(''timestamp'', JInt 60)]], True)]\<rparr>
 \<and> reply_length (feed (JArr [JObj [(''timestamp'', JInt 60)]]) (activity_request_main ''w'')) = 1"
  using main_requests_limit_one [of "feed (JArr [JObj [(''timestamp'', JInt 60)]])" "''w''"
      plain_lib "Some ''token''" "Some ''chat''" posts_ok
      "\<lparr>last_check_timestamp = 0, activity_name_bound = False\<rparr>"
      "\<lparr>next_state = \<lparr>last_check_timestamp = 60, activity_name_bound = True\<rparr>,
          new_activities = [[(''timestamp'', JInt 60)]],
          telegram_attempts = [([[(''timestamp'', JInt 60)]], True)]\<rparr>"]
  by (simp add: eval_defs monitor_poll_main_def get_user_activity_main_def get_json_def
        feed_def raise_for_status_def)

text \<open>
  The bound is one when the upstream honours the limit, which the code does not
  check.
\<close>

lemma main_one_record_when_limit_honoured:
  "reply_within_limit (H (activity_request_main wallet_address)) 1 \<Longrightarrow>
   monitor_poll_main L tok chat wallet_address H rep st = Inr out \<Longrightarrow>
     length (new_activities out) \<le> 1 \<and> length (telegram_attempts out) \<le> 1"
  using poll_main_bounds [of L tok chat wallet_address H rep st out]
    reply_within_limit_length [of "H (activity_request_main wallet_address)" 1]
  by simp

section \<open>Falsy timestamps (C10)\<close>

text \<open>
  C10: a record whose timestamp is absent or falsy (\<^verbatim>\<open>None\<close>, 0, 0.0, \<^verbatim>\<open>False\<close>,
  an empty string, list or dictionary) is, in both variants, never among the new
  records of a cycle and never in a message, and never among the records the
  classification returns. The witness has a record with timestamp 0 that the tests
  alone would admit (\<open>0 \<noteq> 5\<close> in \<^verbatim>\<open>main.py\<close>, \<open>0 > -1\<close> in
  \<^verbatim>\<open>get_specific_activity.py\<close>) and a record without a timestamp.
\<close>

theorem falsy_timestamp_never_new:
  assumes "\<not> has_key d ''timestamp'' \<or> \<not> truthy (dict_get d ''timestamp'')"
  shows "(monitor_cycle_main L tok chat rep st acts = Inr out \<longrightarrow>
            d \<notin> set (new_activities out)
          \<and> (\<forall>m \<in> set (telegram_attempts out). d \<notin> set (fst m)))
       \<and> (monitor_cycle_specific L tok chat rep now W acts' = Inr out' \<longrightarrow>
            d \<notin> set (new_activities out')
          \<and> (\<forall>m \<in> set (telegram_attempts out'). d \<notin> set (fst m)))
       \<and> (classify_main L W items = Inr new \<longrightarrow> d \<notin> set new)
       \<and> (classify_specific L W items = Inr new' \<longrightarrow> d \<notin> set new')"
proof -
  from assms have f: "\<not> truthy (dict_get d ''timestamp'')"
    using truthy_has_key by blast
  then have nm: "\<not> selected_main L V d" and ns: "\<not> selected_specific L V d" for V
    by (simp_all add: selected_main_def selected_specific_def)
  have at: "m \<in> set (attempts_from r xs k) \<Longrightarrow> set (fst m) \<subseteq> set xs" for m r xs k
  proof (induction xs arbitrary: k)
    case Nil
    then show ?case by simp
  next
    case (Cons x xs)
    then show ?case by auto
  qed
  show ?thesis
  proof (intro conjI impI)
    assume a: "monitor_cycle_main L tok chat rep st acts = Inr out"
    from cycle_main_cases [OF a] nm
    show n: "d \<notin> set (new_activities out)" by auto
    have "set (fst m) \<subseteq> set (new_activities out)"
      if "m \<in> set (telegram_attempts out)" for m
    proof -
      from cycle_main_cases [OF a] that
      have "m \<in> set (attempts_from rep (new_activities out) 0)"
        by (auto split: if_splits)
      then show ?thesis by (rule at)
    qed
    with n show "\<forall>m \<in> set (telegram_attempts out). d \<notin> set (fst m)"
      by blast
  next
    assume a: "monitor_cycle_specific L tok chat rep now W acts' = Inr out'"
    from cycle_specific_cases [OF a] ns
    show n: "d \<notin> set (new_activities out')" by auto
    from cycle_specific_cases [OF a] n
    show "\<forall>m \<in> set (telegram_attempts out'). d \<notin> set (fst m)"
      by (auto split: if_splits)
  next
    assume "classify_main L W items = Inr new"
    with nm show "d \<notin> set new"
      by (cases "all_dicts items") (auto simp: classify_main_eq)
  next
    assume "classify_specific L W items = Inr new'"
    with ns show "d \<notin> set new'"
      by (cases "all_dicts items") (auto simp: classify_specific_eq)
  qed
qed

theorem falsy_timestamp_never_new_witness:
  "\<not> truthy (dict_get [(''timestamp'', JInt 0)] ''timestamp'')
 \<and> newer_main plain_lib 5 (JInt 0) = Inr True
 \<and> newer_specific plain_lib (- 1) (JInt 0) = Inr True
 \<and> monitor_cycle_main plain_lib (Some ''token'') (Some ''chat'') posts_ok
       \<lparr>last_check_timestamp = 5, activity_name_bound = True\<rparr>
       (JArr [JObj [(''timestamp'', JInt 0)], JObj [(''title'', JStr ''t'')],
              JObj [(''timestamp'', JInt 7)]]) =
     Inr \<lparr>next_state = \<lparr>last_check_timestamp = 7, activity_name_bound = True\<rparr>,
          new_activities = [[(''timestamp'', JInt 7)]],
          telegram_attempts = [([[(''timestamp'', JInt 7)]], True)]\<rparr>
 \<and> monitor_cycle_specific plain_lib (Some ''token'') (Some ''chat'') posts_ok 10 (- 1)
       (JArr [JObj [(''timestamp'', JInt 0)], JObj [(''title'', JStr ''t'')],
              JObj [(''timestamp'', JInt 7)]]) =
     Inr \<lparr>next_state = 10, new_activities = [[(''timestamp'', JInt 7)]],
          telegram_attempts = [([[(''timestamp'', JInt 7)]], True)]\<rparr>
 \<and> classify_main plain_lib (- 1)
       [JObj [(''timestamp'', JInt 0)], JObj [(''title'', JStr ''t'')],
        JObj [(''timestamp'', JInt 7)]] = Inr [[(''timestamp'', JInt 7)]]
 \<and> classify_specific plain_lib (- 1)
       [JObj [(''timestamp'', JInt 0)], JObj [(''title'', JStr ''t'')],
        JObj [(''timestamp'', JInt 7)]] = Inr [[(''timestamp'', JInt 7)]]"
  using falsy_timestamp_never_new [where d = "[(''timestamp'', JInt 0)]" and L = plain_lib
      and tok = "Some ''token''" and chat = "Some ''chat''" and rep = posts_ok
      and st = "\<lparr>last_check_timestamp = 5, activity_name_bound = True\<rparr>"
      and acts = "JArr [JObj [(''timestamp'', JInt 0)], JObj [(''title'', JStr ''t'')],
              JObj [(''timestamp'', JInt 7)]]"
      and out = "\<lparr>next_state = \<lparr>last_check_timestamp = 7, activity_name_bound = True\<rparr>,
          new_activities = [[(''timestamp'', JInt 7)]],
          telegram_attempts = [([[(''timestamp'', JInt 7)]], True)]\<rparr>"
      and now = 10 and W = "- 1"
      and acts' = "JArr [JObj [(''timestamp'', JInt 0)], JObj [(''title'', JStr ''t'')],
              JObj [(''timestamp'', JInt 7)]]"
      and out' = "\<lparr>next_state = 10, new_activities = [[(''timestamp'', JInt 7)]],
          telegram_attempts = [([[(''timestamp'', JInt 7)]], True)]\<rparr>"
      and items = "[JObj [(''timestamp'', JInt 0)], JObj [(''title'', JStr ''t'')],
              JObj [(''timestamp'', JInt 7)]]"
      and new = "[[(''timestamp'', JInt 7)]]" and new' = "[[(''timestamp'', JInt 7)]]"]
  by (simp add: eval_defs raise_for_status_def)

end
